theory Spec2Isabelle
  imports Complex_Main
begin

text \<open>
  A shallow embedding of the map core of \<open>src/App.tsx\<close>: the projection, the path builder
  \<open>createPath\<close>, the label anchor \<open>getLabelPosition\<close>, and the zoom, pan and click
  handlers of the component with the state they share. Every handler is a function on
  that state; a run of the component is a list of events folded over it.
\<close>

section \<open>JavaScript numbers\<close>

text \<open>
  The program computes with JavaScript numbers. They are modelled in exact arithmetic:
  a finite number is a real, and the three special values of the language are kept, since
  a division by zero does not fail in JavaScript but yields an infinity or NaN.
  Rounding, overflow and the sign of zero are left out (a zero is the positive zero).
\<close>

datatype num = Fin real | PInf | NInf | NaN

instantiation num :: "{plus, minus, uminus, times, inverse, abs, ord}"
begin

fun plus_num :: "num \<Rightarrow> num \<Rightarrow> num" where
  "plus_num (Fin a) (Fin b) = Fin (a + b)"
| "plus_num NaN _ = NaN"
| "plus_num _ NaN = NaN"
| "plus_num PInf NInf = NaN"
| "plus_num NInf PInf = NaN"
| "plus_num PInf _ = PInf"
| "plus_num _ PInf = PInf"
| "plus_num NInf _ = NInf"
| "plus_num _ NInf = NInf"

fun uminus_num :: "num \<Rightarrow> num" where
  "uminus_num (Fin a) = Fin (- a)"
| "uminus_num PInf = NInf"
| "uminus_num NInf = PInf"
| "uminus_num NaN = NaN"

definition minus_num :: "num \<Rightarrow> num \<Rightarrow> num" where
  "minus_num a b = a + (- b)"

fun times_num :: "num \<Rightarrow> num \<Rightarrow> num" where
  "times_num (Fin a) (Fin b) = Fin (a * b)"
| "times_num NaN _ = NaN"
| "times_num _ NaN = NaN"
| "times_num (Fin a) PInf = (if a = 0 then NaN else if 0 < a then PInf else NInf)"
| "times_num (Fin a) NInf = (if a = 0 then NaN else if 0 < a then NInf else PInf)"
| "times_num PInf (Fin b) = (if b = 0 then NaN else if 0 < b then PInf else NInf)"
| "times_num NInf (Fin b) = (if b = 0 then NaN else if 0 < b then NInf else PInf)"
| "times_num PInf PInf = PInf"
| "times_num PInf NInf = NInf"
| "times_num NInf PInf = NInf"
| "times_num NInf NInf = PInf"

fun divide_num :: "num \<Rightarrow> num \<Rightarrow> num" where
  "divide_num (Fin a) (Fin b) =
     (if b = 0 then (if a = 0 then NaN else if 0 < a then PInf else NInf) else Fin (a / b))"
| "divide_num NaN _ = NaN"
| "divide_num _ NaN = NaN"
| "divide_num (Fin a) PInf = Fin 0"
| "divide_num (Fin a) NInf = Fin 0"
| "divide_num PInf (Fin b) = (if 0 \<le> b then PInf else NInf)"
| "divide_num NInf (Fin b) = (if 0 \<le> b then NInf else PInf)"
| "divide_num PInf PInf = NaN"
| "divide_num PInf NInf = NaN"
| "divide_num NInf PInf = NaN"
| "divide_num NInf NInf = NaN"

definition inverse_num :: "num \<Rightarrow> num" where
  "inverse_num a = divide (Fin 1) a"

fun abs_num :: "num \<Rightarrow> num" where
  "abs_num (Fin a) = Fin \<bar>a\<bar>"
| "abs_num PInf = PInf"
| "abs_num NInf = PInf"
| "abs_num NaN = NaN"

text \<open>The comparisons \<open><\<close> and \<open><=\<close> of the language: false as soon as one side is NaN.\<close>

fun less_num :: "num \<Rightarrow> num \<Rightarrow> bool" where
  "less_num (Fin a) (Fin b) = (a < b)"
| "less_num NaN _ = False"
| "less_num _ NaN = False"
| "less_num _ NInf = False"
| "less_num PInf _ = False"
| "less_num NInf _ = True"
| "less_num _ PInf = True"

fun less_eq_num :: "num \<Rightarrow> num \<Rightarrow> bool" where
  "less_eq_num (Fin a) (Fin b) = (a \<le> b)"
| "less_eq_num NaN _ = False"
| "less_eq_num _ NaN = False"
| "less_eq_num NInf _ = True"
| "less_eq_num _ PInf = True"
| "less_eq_num _ NInf = False"
| "less_eq_num PInf _ = False"

instance ..

end

text \<open>\<open>Math.max\<close> and \<open>Math.min\<close> of two arguments: NaN as soon as one argument is NaN.\<close>

definition Math_max :: "num \<Rightarrow> num \<Rightarrow> num" where
  "Math_max a b = (if a = NaN \<or> b = NaN then NaN else if a < b then b else a)"

definition Math_min :: "num \<Rightarrow> num \<Rightarrow> num" where
  "Math_min a b = (if a = NaN \<or> b = NaN then NaN else if b < a then b else a)"

definition isFinite :: "num \<Rightarrow> bool" where
  "isFinite a = (case a of Fin _ \<Rightarrow> True | _ \<Rightarrow> False)"

section \<open>Projection\<close>

definition MAP_WIDTH :: num where
  "MAP_WIDTH = Fin 1000"

definition MAP_HEIGHT :: num where
  "MAP_HEIGHT = Fin 500"

definition project :: "num \<Rightarrow> num \<Rightarrow> num \<times> num" where
  "project lon lat =
     (let x = (lon + Fin 180) * (MAP_WIDTH / Fin 360);
          y = ((- lat) + Fin 90) * (MAP_HEIGHT / Fin 180)
      in (x, y))"

section \<open>Features\<close>

text \<open>
  An element of a ring as the loaded data may deliver it: null (or undefined), a value
  that is not an array (a bare number stands for these), or an array of numbers.
  A ring is an array of such elements.

  A geometry is its type tag with its \<open>coordinates\<close>; the coordinates are \<open>None\<close> when
  the member is missing or null. For a tag other than the two known ones the coordinates
  are never traversed, and only whether they are present is kept.

  Of a feature the model keeps \<open>properties.id\<close> (the field \<open>fid\<close>), \<open>properties.name\<close>
  and the geometry, \<open>None\<close> when it is missing or null.
\<close>

datatype point = PNull | PNum num | PArr "num list"

type_synonym ring = "point list"

datatype geometry =
    Polygon "ring list option"
  | MultiPolygon "ring list list option"
  | OtherType bool

record feature =
  fid :: string
  name :: string
  geometry :: "geometry option"

section \<open>Path builder\<close>

text \<open>
  \<open>createPath\<close> (lines 85 to 118 of the source) with its inner function \<open>drawPolygon\<close>;
  \<open>drawPoint\<close> is the callback that \<open>drawPolygon\<close> runs on every element of the ring
  with its index: it returns the string \<open>d\<close> unchanged for an element that is not an array
  of at least two members, and appends a move at index 0, a line elsewhere. After the test
  for a missing geometry or missing coordinates, \<open>createPath\<close> appends the subpath of
  every ring of a Polygon, of every ring of every polygon of a MultiPolygon, and nothing
  for another type.

  The template literals of \<open>drawPolygon\<close> print numbers with the language's
  number-to-string conversion, which depends on the binary rounding this model leaves out.
  The conversion is the parameter \<open>fmt\<close> of the path builder.
\<close>

definition drawPoint :: "(num \<Rightarrow> string) \<Rightarrow> string \<Rightarrow> nat \<times> point \<Rightarrow> string" where
  "drawPoint fmt d ip =
     (case ip of (i, point) \<Rightarrow>
        (case point of
           PArr cs \<Rightarrow>
             if length cs < 2 then d
             else
               (let lon = cs ! 0; lat = cs ! 1; (x, y) = project lon lat
                in if i = 0 then d @ ''M'' @ fmt x @ '','' @ fmt y
                   else d @ ''L'' @ fmt x @ '','' @ fmt y)
         | _ \<Rightarrow> d))"

definition drawPolygon :: "(num \<Rightarrow> string) \<Rightarrow> ring \<Rightarrow> string" where
  "drawPolygon fmt coords =
     (let d = foldl (drawPoint fmt) '''' (enumerate 0 coords)
      in d @ ''Z '')"

definition createPath :: "(num \<Rightarrow> string) \<Rightarrow> feature \<Rightarrow> string" where
  "createPath fmt feature =
     (case geometry feature of
        None \<Rightarrow> ''''
      | Some (Polygon None) \<Rightarrow> ''''
      | Some (MultiPolygon None) \<Rightarrow> ''''
      | Some (OtherType present) \<Rightarrow> ''''
      | Some (Polygon (Some rings)) \<Rightarrow>
          foldl (\<lambda>path ring. path @ drawPolygon fmt ring) '''' rings
      | Some (MultiPolygon (Some polygons)) \<Rightarrow>
          foldl (\<lambda>path polygon. foldl (\<lambda>path ring. path @ drawPolygon fmt ring) path polygon)
            '''' polygons)"

text \<open>
  The path as the sequence of drawing commands it spells: \<open>render\<close> writes a command
  list the way the template literals of \<open>drawPolygon\<close> do, \<open>pointCmds\<close> is the command
  (none or one) that the callback of \<open>drawPolygon\<close> appends for the element at index
  \<open>i\<close>, and \<open>ringCmds\<close> collects them for a ring, with the closing command.
\<close>

datatype cmd = MoveTo "num \<times> num" | LineTo "num \<times> num" | ClosePath

fun render :: "(num \<Rightarrow> string) \<Rightarrow> cmd list \<Rightarrow> string" where
  "render fmt [] = ''''"
| "render fmt (MoveTo p # cs) = ''M'' @ fmt (fst p) @ '','' @ fmt (snd p) @ render fmt cs"
| "render fmt (LineTo p # cs) = ''L'' @ fmt (fst p) @ '','' @ fmt (snd p) @ render fmt cs"
| "render fmt (ClosePath # cs) = ''Z '' @ render fmt cs"

text \<open>A valid point: an array of at least two coordinates.\<close>

definition validPoint :: "point \<Rightarrow> bool" where
  "validPoint p = (case p of PArr cs \<Rightarrow> 2 \<le> length cs | _ \<Rightarrow> False)"

definition pointCmds :: "nat \<times> point \<Rightarrow> cmd list" where
  "pointCmds ip =
     (case ip of (i, p) \<Rightarrow>
        if validPoint p
        then (case p of
                PArr cs \<Rightarrow>
                  if i = 0 then [MoveTo (project (cs ! 0) (cs ! 1))]
                  else [LineTo (project (cs ! 0) (cs ! 1))]
              | _ \<Rightarrow> [])
        else [])"

definition ringCmds :: "ring \<Rightarrow> cmd list" where
  "ringCmds ring = concat (map pointCmds (enumerate 0 ring)) @ [ClosePath]"

text \<open>
  The number-to-string conversion of the language on the values where it does not depend
  on rounding: NaN, the infinities and the integers (below \<open>10^21\<close>, where the language
  changes to the exponent notation). It instantiates \<open>fmt\<close> where a path is evaluated at
  coordinates that project to integers; of any other finite number it prints the integer
  part only, and no statement below is about such a number.
\<close>

function showNat :: "nat \<Rightarrow> string" where
  "showNat n =
     (if n < 10 then [''0123456789'' ! n]
      else showNat (n div 10) @ [''0123456789'' ! (n mod 10)])"
  by pat_completeness auto
termination
  by (relation "measure id") auto

definition numberToString :: "num \<Rightarrow> string" where
  "numberToString a =
     (case a of
        NaN \<Rightarrow> ''NaN''
      | PInf \<Rightarrow> ''Infinity''
      | NInf \<Rightarrow> ''-Infinity''
      | Fin r \<Rightarrow> (if r < 0 then ''-'' else '''') @ showNat (nat \<lfloor>\<bar>r\<bar>\<rfloor>))"

section \<open>Label anchor\<close>

text \<open>
  \<open>getLabelPosition\<close> (lines 121 to 153 of the source) chooses a ring, \<open>bestRing\<close>,
  and returns the midpoint of the bounding box of its projected points, or \<open>null\<close> when
  the ring is empty. It reads members of values it has not checked, and raises a
  \<open>TypeError\<close> where such a value is null or undefined: the geometry itself, its
  coordinates, the first ring of a polygon without rings, and a null element of the ring.
  The result is the error, or the anchor, \<open>None\<close> standing for \<open>null\<close>.
\<close>

datatype error = TypeError

text \<open>
  The loop over the polygons of a MultiPolygon; the accumulator is \<open>(maxLen, bestRing)\<close>.
  \<open>poly[0]\<close> is undefined for a polygon without rings, and reading its length raises.
\<close>

fun pickRing :: "ring list list \<Rightarrow> nat \<times> ring \<Rightarrow> error + nat \<times> ring" where
  "pickRing [] acc = Inr acc"
| "pickRing (poly # polys) (maxLen, bestRing) =
     (case poly of
        [] \<Rightarrow> Inl TypeError
      | r # _ \<Rightarrow>
          if length r > maxLen then pickRing polys (length r, r)
          else pickRing polys (maxLen, bestRing))"

text \<open>
  \<open>p[0]\<close> and \<open>p[1]\<close> of a ring element: reading a member of null raises; of a value
  that is not an array, and of an array too short, the member is undefined, which the
  arithmetic of \<open>project\<close> turns into NaN.
\<close>

definition memberAt :: "num list \<Rightarrow> nat \<Rightarrow> num" where
  "memberAt cs i = (if i < length cs then cs ! i else NaN)"

definition lonLat :: "point \<Rightarrow> error + num \<times> num" where
  "lonLat p =
     (case p of
        PNull \<Rightarrow> Inl TypeError
      | PNum _ \<Rightarrow> Inr (NaN, NaN)
      | PArr cs \<Rightarrow> Inr (memberAt cs 0, memberAt cs 1))"

text \<open>The loop over the ring; the accumulator is \<open>(minX, maxX, minY, maxY)\<close>.\<close>

fun boundingBox :: "ring \<Rightarrow> num \<times> num \<times> num \<times> num \<Rightarrow> error + num \<times> num \<times> num \<times> num" where
  "boundingBox [] acc = Inr acc"
| "boundingBox (p # ps) (minX, maxX, minY, maxY) =
     (case lonLat p of
        Inl e \<Rightarrow> Inl e
      | Inr (lon, lat) \<Rightarrow>
          (let (x, y) = project lon lat;
               minX = (if x < minX then x else minX);
               maxX = (if x > maxX then x else maxX);
               minY = (if y < minY then y else minY);
               maxY = (if y > maxY then y else maxY)
           in boundingBox ps (minX, maxX, minY, maxY)))"

text \<open>The part of \<open>getLabelPosition\<close> after the ring is chosen.\<close>

definition labelOfRing :: "ring \<Rightarrow> error + (num \<times> num) option" where
  "labelOfRing bestRing =
     (if length bestRing = 0 then Inr None
      else
        (case boundingBox bestRing (PInf, NInf, PInf, NInf) of
           Inl e \<Rightarrow> Inl e
         | Inr (minX, maxX, minY, maxY) \<Rightarrow>
             Inr (Some ((minX + maxX) / Fin 2, (minY + maxY) / Fin 2))))"

definition getLabelPosition :: "feature \<Rightarrow> error + (num \<times> num) option" where
  "getLabelPosition feature =
     (case geometry feature of
        None \<Rightarrow> Inl TypeError
      | Some (Polygon None) \<Rightarrow> Inl TypeError
      | Some (Polygon (Some rings)) \<Rightarrow>
          labelOfRing (if length rings > 0 then rings ! 0 else [])
      | Some (MultiPolygon None) \<Rightarrow> Inl TypeError
      | Some (MultiPolygon (Some polys)) \<Rightarrow>
          (case pickRing polys (0, []) of
             Inl e \<Rightarrow> Inl e
           | Inr (maxLen, bestRing) \<Rightarrow> labelOfRing bestRing)
      | Some (OtherType present) \<Rightarrow> labelOfRing [])"

section \<open>Viewport transform and gestures\<close>

text \<open>
  The handlers of lines 297 to 302 and 437 to 564 of the source, and the state of the
  component that they read and write: the \<open>transform\<close>
  state (its members \<open>k\<close>, \<open>x\<close>, \<open>y\<close> are the fields \<open>tk\<close>, \<open>tx\<close>, \<open>ty\<close>), the
  \<open>isDragging\<close> state, and the refs \<open>lastMousePos\<close>, \<open>isDragRef\<close>, \<open>pinchDistanceRef\<close>,
  \<open>pinchStartScaleRef\<close> and \<open>mapRef\<close>. Of \<open>mapRef.current\<close> the model keeps the
  bounding rectangle of the element, \<open>None\<close> while the ref is null. \<open>toggled\<close> lists the
  calls of \<open>toggleCountry\<close>, by the id of the feature: the clicks that fired.

  The coordinates of an event and the members of a bounding rectangle are finite numbers,
  hence reals. A handler is a function from the state before the event to the state after
  it: the component is rendered between two events, so a handler reads the current state.
\<close>

record viewport =
  tk :: num
  tx :: num
  ty :: num

record rect =
  rleft :: real
  rtop :: real
  rwidth :: real
  rheight :: real

record gstate =
  transform :: viewport
  isDragging :: bool
  lastMousePos :: "real \<times> real"
  isDragRef :: bool
  pinchDistanceRef :: "real option"
  pinchStartScaleRef :: num
  mapRef :: "rect option"
  toggled :: "string list"

definition initial :: gstate where
  "initial =
     \<lparr>transform = \<lparr>tk = Fin 1, tx = Fin 0, ty = Fin 0\<rparr>,
      isDragging = False,
      lastMousePos = (0, 0),
      isDragRef = False,
      pinchDistanceRef = None,
      pinchStartScaleRef = Fin 1,
      mapRef = None,
      toggled = []\<rparr>"

text \<open>A touch is its \<open>(clientX, clientY)\<close>.\<close>

definition getTouchDistance :: "real \<times> real \<Rightarrow> real \<times> real \<Rightarrow> real" where
  "getTouchDistance a b =
     (let dx = fst a - fst b; dy = snd a - snd b
      in sqrt (dx * dx + dy * dy))"

definition getTouchMidpoint :: "real \<times> real \<Rightarrow> real \<times> real \<Rightarrow> real \<times> real" where
  "getTouchMidpoint a b = ((fst a + fst b) / 2, (snd a + snd b) / 2)"

definition toggleCountry :: "feature \<Rightarrow> gstate \<Rightarrow> gstate" where
  "toggleCountry feature s = s\<lparr>toggled := toggled s @ [fid feature]\<rparr>"

definition handleCountryClick :: "feature \<Rightarrow> gstate \<Rightarrow> gstate" where
  "handleCountryClick feature s = (if isDragRef s then s else toggleCountry feature s)"

definition handleZoom :: "num \<Rightarrow> gstate \<Rightarrow> gstate" where
  "handleZoom factor s =
     (let prev = transform s;
          newK = Math_max (Fin 1) (Math_min (Fin 8) (tk prev * factor));
          cx = MAP_WIDTH / Fin 2;
          cy = MAP_HEIGHT / Fin 2;
          newX = cx - (cx - tx prev) * (newK / tk prev);
          newY = cy - (cy - ty prev) * (newK / tk prev)
      in s\<lparr>transform := \<lparr>tk = newK, tx = newX, ty = newY\<rparr>\<rparr>)"

definition handleResetZoom :: "gstate \<Rightarrow> gstate" where
  "handleResetZoom s = s\<lparr>transform := \<lparr>tk = Fin 1, tx = Fin 0, ty = Fin 0\<rparr>\<rparr>"

definition handleWheel :: "real \<Rightarrow> real \<Rightarrow> real \<Rightarrow> gstate \<Rightarrow> gstate" where
  "handleWheel deltaY clientX clientY s =
     (case mapRef s of
        None \<Rightarrow> s
      | Some rect \<Rightarrow>
          (let scaleFactor = (if deltaY > 0 then Fin 0.9 else Fin 1.1);
               prev = transform s;
               newK = Math_max (Fin 1) (Math_min (Fin 8) (tk prev * scaleFactor));
               mx = Fin (clientX - rleft rect);
               my = Fin (clientY - rtop rect);
               svgMx = mx * (MAP_WIDTH / Fin (rwidth rect));
               svgMy = my * (MAP_HEIGHT / Fin (rheight rect));
               newX = svgMx - (svgMx - tx prev) * (newK / tk prev);
               newY = svgMy - (svgMy - ty prev) * (newK / tk prev)
           in s\<lparr>transform := \<lparr>tk = newK, tx = newX, ty = newY\<rparr>\<rparr>))"

definition handleMouseDown :: "real \<Rightarrow> real \<Rightarrow> gstate \<Rightarrow> gstate" where
  "handleMouseDown clientX clientY s =
     s\<lparr>isDragging := True, isDragRef := False, lastMousePos := (clientX, clientY)\<rparr>"

definition handleMouseMove :: "real \<Rightarrow> real \<Rightarrow> gstate \<Rightarrow> gstate" where
  "handleMouseMove clientX clientY s =
     (if \<not> isDragging s then s
      else
        (let dx = clientX - fst (lastMousePos s);
             dy = clientY - snd (lastMousePos s);
             s1 = (if \<bar>dx\<bar> > 2 \<or> \<bar>dy\<bar> > 2 then s\<lparr>isDragRef := True\<rparr> else s);
             scaleRatio = (case mapRef s of
                             None \<Rightarrow> Fin 1
                           | Some rect \<Rightarrow> MAP_WIDTH / Fin (rwidth rect));
             prev = transform s
         in s1\<lparr>transform := prev\<lparr>tx := tx prev + (Fin dx * scaleRatio),
                                  ty := ty prev + (Fin dy * scaleRatio)\<rparr>,
               lastMousePos := (clientX, clientY)\<rparr>))"

definition handleMouseUp :: "gstate \<Rightarrow> gstate" where
  "handleMouseUp s = s\<lparr>isDragging := False\<rparr>"

text \<open>
  A touch event carries its list \<open>touches\<close>. At \<open>touchstart\<close> and \<open>touchmove\<close> the list
  holds at least the touch that raised the event: it is given as its first touch and the
  others. At \<open>touchend\<close> it may be empty, and only its length is read.
\<close>

definition handleTouchStart :: "real \<times> real \<Rightarrow> (real \<times> real) list \<Rightarrow> gstate \<Rightarrow> gstate" where
  "handleTouchStart t0 ts s =
     (case ts of
        [t1] \<Rightarrow>
          s\<lparr>pinchDistanceRef := Some (getTouchDistance t0 t1),
            pinchStartScaleRef := tk (transform s),
            isDragRef := False,
            isDragging := False\<rparr>
      | _ \<Rightarrow> handleMouseDown (fst t0) (snd t0) s)"

text \<open>
  The condition of \<open>handleTouchMove\<close> tests \<open>pinchDistanceRef.current\<close> and
  \<open>mapRef.current\<close> for truth: a distance that is null or zero is false.
\<close>

definition handleTouchMove :: "real \<times> real \<Rightarrow> (real \<times> real) list \<Rightarrow> gstate \<Rightarrow> gstate" where
  "handleTouchMove t0 ts s =
     (case (ts, pinchDistanceRef s, mapRef s) of
        ([t1], Some pinchDistance, Some rect) \<Rightarrow>
          if pinchDistance = 0 then handleMouseMove (fst t0) (snd t0) s
          else
            (let currentDistance = getTouchDistance t0 t1;
                 scaleFactor = currentDistance / pinchDistance;
                 desiredScale =
                   Math_max (Fin 1) (Math_min (Fin 8) (pinchStartScaleRef s * Fin scaleFactor));
                 midpoint = getTouchMidpoint t0 t1;
                 mx = Fin (fst midpoint - rleft rect);
                 my = Fin (snd midpoint - rtop rect);
                 svgMx = mx * (MAP_WIDTH / Fin (rwidth rect));
                 svgMy = my * (MAP_HEIGHT / Fin (rheight rect));
                 prev = transform s;
                 newX = svgMx - (svgMx - tx prev) * (desiredScale / tk prev);
                 newY = svgMy - (svgMy - ty prev) * (desiredScale / tk prev)
             in s\<lparr>transform := \<lparr>tk = desiredScale, tx = newX, ty = newY\<rparr>\<rparr>)
      | _ \<Rightarrow> handleMouseMove (fst t0) (snd t0) s)"

definition handleTouchEnd :: "(real \<times> real) list \<Rightarrow> gstate \<Rightarrow> gstate" where
  "handleTouchEnd ts s =
     (let s1 = (if length ts < 2
                then s\<lparr>pinchDistanceRef := None, pinchStartScaleRef := tk (transform s)\<rparr>
                else s)
      in handleMouseUp s1)"

text \<open>
  The events of the map surface and its controls, with the handler each is bound to:
  the two zoom buttons call \<open>handleZoom\<close> with \<open>1.2\<close> and \<open>0.8\<close>, leaving the surface
  is handled as a release, and a click on a country path calls \<open>handleCountryClick\<close>.
  \<open>Layout\<close> is the change of the surface's bounding rectangle (mounting, resizing).
\<close>

datatype event =
    ZoomInButton
  | ZoomOutButton
  | ResetButton
  | Wheel real real real
  | MouseDown real real
  | MouseMove real real
  | MouseUp
  | MouseLeave
  | TouchStart "real \<times> real" "(real \<times> real) list"
  | TouchMove "real \<times> real" "(real \<times> real) list"
  | TouchEnd "(real \<times> real) list"
  | Click feature
  | Layout "rect option"

fun step :: "gstate \<Rightarrow> event \<Rightarrow> gstate" where
  "step s ZoomInButton = handleZoom (Fin 1.2) s"
| "step s ZoomOutButton = handleZoom (Fin 0.8) s"
| "step s ResetButton = handleResetZoom s"
| "step s (Wheel deltaY clientX clientY) = handleWheel deltaY clientX clientY s"
| "step s (MouseDown clientX clientY) = handleMouseDown clientX clientY s"
| "step s (MouseMove clientX clientY) = handleMouseMove clientX clientY s"
| "step s MouseUp = handleMouseUp s"
| "step s MouseLeave = handleMouseUp s"
| "step s (TouchStart t0 ts) = handleTouchStart t0 ts s"
| "step s (TouchMove t0 ts) = handleTouchMove t0 ts s"
| "step s (TouchEnd ts) = handleTouchEnd ts s"
| "step s (Click feature) = handleCountryClick feature s"
| "step s (Layout r) = s\<lparr>mapRef := r\<rparr>"

definition run :: "gstate \<Rightarrow> event list \<Rightarrow> gstate" where
  "run s es = foldl step s es"

section \<open>Notions used in the statements\<close>

subsection \<open>Paths\<close>



subsection \<open>Label anchor\<close>

text \<open>
  The ring the specification names for a MultiPolygon: among the first rings of the
  polygons, the first one of the greatest vertex count (the empty ring when there is no
  polygon). It reads the first ring of every polygon, and is used for polygons that have
  one.
\<close>

definition greatestFirstRing :: "ring list list \<Rightarrow> ring" where
  "greatestFirstRing polys =
     (let firsts = map hd polys;
          m = Max (insert 0 (set (map length firsts)))
      in case find (\<lambda>r. length r = m) firsts of Some r \<Rightarrow> r | None \<Rightarrow> [])"

text \<open>The same choice from a running maximum \<open>n\<close> with its ring \<open>b\<close>: the loop invariant.\<close>

definition pickSpec :: "ring list \<Rightarrow> nat \<Rightarrow> ring \<Rightarrow> nat \<times> ring" where
  "pickSpec firsts n b =
     (let m = Max (insert n (set (map length firsts)))
      in (m, if m = n then b
             else (case find (\<lambda>r. length r = m) firsts of Some r \<Rightarrow> r | None \<Rightarrow> [])))"

text \<open>
  The projection on finite coordinates, and a ring element whose first two coordinates
  are the finite numbers \<open>lon\<close> and \<open>lat\<close>, followed by any further members.
\<close>

definition planeX :: "real \<Rightarrow> real" where
  "planeX lon = (lon + 180) * (1000 / 360)"

definition planeY :: "real \<Rightarrow> real" where
  "planeY lat = (- lat + 90) * (500 / 180)"

definition finitePoint :: "real \<times> real \<times> num list \<Rightarrow> point" where
  "finitePoint t = (case t of (lon, lat, rest) \<Rightarrow> PArr (Fin lon # Fin lat # rest))"

subsection \<open>Gestures\<close>

text \<open>The invariant of the scale, with what keeps it: the pinch baseline is a finite number.\<close>

definition scaleInvariant :: "gstate \<Rightarrow> bool" where
  "scaleInvariant s =
     (Fin 1 \<le> tk (transform s) \<and> tk (transform s) \<le> Fin 8 \<and> isFinite (pinchStartScaleRef s))"

definition finiteViewport :: "viewport \<Rightarrow> bool" where
  "finiteViewport v = (isFinite (tk v) \<and> isFinite (tx v) \<and> isFinite (ty v))"

text \<open>
  A pointer session moves through the positions \<open>ps\<close> after the press at \<open>p\<close>:
  \<open>someMoveExceeds p ps\<close> holds when one of the moves, measured from the position before
  it, is longer than 2 pixels in an axis.
\<close>

fun someMoveExceeds :: "real \<times> real \<Rightarrow> (real \<times> real) list \<Rightarrow> bool" where
  "someMoveExceeds p [] = False"
| "someMoveExceeds p (q # qs) =
     (\<bar>fst q - fst p\<bar> > 2 \<or> \<bar>snd q - snd p\<bar> > 2 \<or> someMoveExceeds q qs)"

definition moves :: "(real \<times> real) list \<Rightarrow> event list" where
  "moves ps = map (\<lambda>p. MouseMove (fst p) (snd p)) ps"

text \<open>The events that put a pointer down: a mouse press and a finger landing.\<close>

definition isPointerDown :: "event \<Rightarrow> bool" where
  "isPointerDown e = (case e of MouseDown _ _ \<Rightarrow> True | TouchStart _ _ \<Rightarrow> True | _ \<Rightarrow> False)"

subsection \<open>Sample inputs\<close>

definition france :: feature where
  "france = \<lparr>fid = ''FRA'', name = ''France'', geometry = None\<rparr>"

text \<open>A zoomed state over a surface of 500 by 250 pixels, with a pinch baseline of 10 pixels.\<close>

definition zoomedState :: gstate where
  "zoomedState =
     \<lparr>transform = \<lparr>tk = Fin 2, tx = Fin (-100), ty = Fin (-50)\<rparr>,
      isDragging = False, lastMousePos = (0, 0), isDragRef = False,
      pinchDistanceRef = Some 10, pinchStartScaleRef = Fin 2,
      mapRef = Some \<lparr>rleft = 0, rtop = 0, rwidth = 500, rheight = 250\<rparr>,
      toggled = []\<rparr>"

text \<open>The state after a drag of 5 pixels, before the release.\<close>

definition dragged :: gstate where
  "dragged = run initial [MouseDown 0 0, MouseMove 5 0]"




section \<open>Path builder: proofs\<close>

lemma render_append: "render fmt (a @ b) = render fmt a @ render fmt b"
  by (induction fmt a rule: render.induct) simp_all

lemma drawPoint_cmds: "drawPoint fmt d ip = d @ render fmt (pointCmds ip)"
  by (cases ip) (simp add: drawPoint_def pointCmds_def validPoint_def split: point.splits prod.splits)

lemma foldl_drawPoint:
  "foldl (drawPoint fmt) d ips = d @ render fmt (concat (map pointCmds ips))"
proof (induction ips arbitrary: d)
  case Nil
  show ?case by simp
next
  case (Cons ip ips)
  have "foldl (drawPoint fmt) d (ip # ips) = foldl (drawPoint fmt) (drawPoint fmt d ip) ips"
    by simp
  also have "\<dots> = drawPoint fmt d ip @ render fmt (concat (map pointCmds ips))"
    by (rule Cons.IH)
  also have "\<dots> = d @ render fmt (concat (map pointCmds (ip # ips)))"
    by (simp add: drawPoint_cmds render_append)
  finally show ?case .
qed

lemma drawPolygon_render: "drawPolygon fmt ring = render fmt (ringCmds ring)"
  by (simp add: drawPolygon_def ringCmds_def foldl_drawPoint render_append)

lemma project_Fin:
  "project (Fin lon) (Fin lat) = (Fin ((lon + 180) * (1000 / 360)), Fin ((- lat + 90) * (500 / 180)))"
  by (simp add: project_def MAP_WIDTH_def MAP_HEIGHT_def)

lemma createPath_single_ring:
  "createPath fmt (f\<lparr>geometry := Some (Polygon (Some [ring]))\<rparr>) = drawPolygon fmt ring"
  by (simp add: createPath_def)

lemma enumerate_append:
  "enumerate n (xs @ ys) = enumerate n xs @ enumerate (n + length xs) ys"
  by (induction xs arbitrary: n) simp_all

lemma pointCmds_valid:
  "pointCmds (i, PArr (lon # lat # rest)) =
     (if i = 0 then [MoveTo (project lon lat)] else [LineTo (project lon lat)])"
  by (simp add: pointCmds_def validPoint_def)

lemma pointCmds_invalid: "\<not> validPoint p \<Longrightarrow> pointCmds (i, p) = []"
  by (simp add: pointCmds_def)

lemma length_pointCmds: "length (pointCmds (i, p)) = (if validPoint p then 1 else 0)"
  by (simp add: pointCmds_def validPoint_def split: point.splits)

lemma pointCmds_PArr:
  "pointCmds (i, PArr cs) =
     (if 2 \<le> length cs
      then (if i = 0 then [MoveTo (project (cs ! 0) (cs ! 1))]
            else [LineTo (project (cs ! 0) (cs ! 1))])
      else [])"
  by (simp add: pointCmds_def validPoint_def)


lemma length_concat_pointCmds:
  "length (concat (map pointCmds (enumerate n ps))) = length (filter validPoint ps)"
  by (induction ps arbitrary: n) (simp_all add: length_pointCmds)


lemma ringCmds_split:
  "ringCmds (pre @ PArr (lon # lat # rest) # post) =
     concat (map pointCmds (enumerate 0 pre))
     @ (if pre = [] then [MoveTo (project lon lat)] else [LineTo (project lon lat)])
     @ concat (map pointCmds (enumerate (Suc (length pre)) post))
     @ [ClosePath]"
  by (simp add: ringCmds_def enumerate_append pointCmds_valid)





declare showNat.simps [simp del]

lemma concat_pointCmds_none:
  "filter validPoint ps = [] \<Longrightarrow> concat (map pointCmds (enumerate n ps)) = []"
proof (induction ps arbitrary: n)
  case Nil
  show ?case by simp
next
  case (Cons p ps)
  from Cons.prems have p: "\<not> validPoint p" and ps: "filter validPoint ps = []"
    by (simp_all split: if_splits)
  show ?case by (simp add: pointCmds_invalid [OF p] Cons.IH [OF ps])
qed

lemma pointCmds_no_move: "0 < i \<Longrightarrow> MoveTo q \<notin> set (pointCmds (i, p))"
proof (cases p)
  case PNull
  then show ?thesis by (simp add: pointCmds_def validPoint_def)
next
  case (PNum n)
  then show ?thesis by (simp add: pointCmds_def validPoint_def)
next
  case (PArr cs)
  assume "0 < i"
  with PArr show ?thesis by (simp add: pointCmds_PArr)
qed

lemma concat_pointCmds_no_move:
  "0 < n \<Longrightarrow> MoveTo q \<notin> set (concat (map pointCmds (enumerate n ps)))"
proof (induction ps arbitrary: n)
  case Nil
  show ?case by simp
next
  case (Cons p ps)
  have "MoveTo q \<notin> set (pointCmds (n, p))"
    using Cons.prems by (rule pointCmds_no_move)
  moreover have "MoveTo q \<notin> set (concat (map pointCmds (enumerate (Suc n) ps)))"
    by (rule Cons.IH) simp
  ultimately show ?case by simp
qed

text \<open>
  C10. When the first elements of a ring are invalid and a valid point follows them, the
  subpath begins with the line command \<open>L\<close> of that point, and no move command occurs in
  it at all: the choice between move and line looks at the index of the element, not at
  the first valid point. A ring without any valid point still contributes the close
  command \<open>Z\<close> followed by a space.
\<close>

theorem drawPolygon_invalid_first_point:
  "(bad \<noteq> [] \<and> filter validPoint bad = [] \<longrightarrow>
      drawPolygon fmt (bad @ PArr (lon # lat # rest) # post)
        = ''L'' @ fmt (fst (project lon lat)) @ '','' @ fmt (snd (project lon lat))
          @ render fmt (concat (map pointCmds (enumerate (Suc (length bad)) post))) @ ''Z ''
      \<and> MoveTo q \<notin> set (ringCmds (bad @ PArr (lon # lat # rest) # post)))
   \<and> (filter validPoint ring = [] \<longrightarrow>
      drawPolygon fmt ring = ''Z ''
      \<and> createPath fmt (f\<lparr>geometry := Some (Polygon (Some [ring]))\<rparr>) = ''Z '')"
proof (intro conjI impI)
  assume h: "bad \<noteq> [] \<and> filter validPoint bad = []"
  then have none: "concat (map pointCmds (enumerate 0 bad)) = []"
    by (simp add: concat_pointCmds_none)
  from h have cmds: "ringCmds (bad @ PArr (lon # lat # rest) # post)
      = LineTo (project lon lat) # concat (map pointCmds (enumerate (Suc (length bad)) post)) @ [ClosePath]"
    by (simp add: ringCmds_split none)
  show "drawPolygon fmt (bad @ PArr (lon # lat # rest) # post)
        = ''L'' @ fmt (fst (project lon lat)) @ '','' @ fmt (snd (project lon lat))
          @ render fmt (concat (map pointCmds (enumerate (Suc (length bad)) post))) @ ''Z ''"
    by (simp add: drawPolygon_render cmds render_append)
  show "MoveTo q \<notin> set (ringCmds (bad @ PArr (lon # lat # rest) # post))"
    using concat_pointCmds_no_move [of "Suc (length bad)" q post] by (simp add: cmds)
next
  assume h: "filter validPoint ring = []"
  then show d: "drawPolygon fmt ring = ''Z ''"
    by (simp add: drawPolygon_render ringCmds_def concat_pointCmds_none)
  then show "createPath fmt (f\<lparr>geometry := Some (Polygon (Some [ring]))\<rparr>) = ''Z ''"
    by (simp add: createPath_single_ring)
qed

lemma numberToString_0: "numberToString (Fin 0) = ''0''"
  by (simp add: numberToString_def showNat.simps)

lemma numberToString_500: "numberToString (Fin 500) = ''500''"
  by (simp add: numberToString_def showNat.simps)

lemma numberToString_250: "numberToString (Fin 250) = ''250''"
  by (simp add: numberToString_def showNat.simps)

theorem drawPolygon_invalid_first_point_witness:
  "[PNull] \<noteq> [] \<and> filter validPoint [PNull] = []
   \<and> drawPolygon numberToString [PNull, PArr [Fin 0, Fin 0], PArr [Fin (-180), Fin 90]] = ''L500,250L0,0Z ''
   \<and> MoveTo (Fin 500, Fin 250) \<notin> set (ringCmds [PNull, PArr [Fin 0, Fin 0], PArr [Fin (-180), Fin 90]])
   \<and> filter validPoint [PNull, PNum (Fin 1), PArr [Fin 5]] = []
   \<and> drawPolygon numberToString [PNull, PNum (Fin 1), PArr [Fin 5]] = ''Z ''
   \<and> createPath numberToString \<lparr>fid = ''ATA'', name = ''Antarctica'',
        geometry = Some (Polygon (Some [[PNull, PNum (Fin 1), PArr [Fin 5]]]))\<rparr> = ''Z ''"
  using drawPolygon_invalid_first_point [where bad = "[PNull]" and fmt = numberToString
      and lon = "Fin 0" and lat = "Fin 0" and rest = "[]" and post = "[PArr [Fin (-180), Fin 90]]"
      and q = "(Fin 500, Fin 250)" and ring = "[PNull, PNum (Fin 1), PArr [Fin 5]]"
      and f = "\<lparr>fid = ''ATA'', name = ''Antarctica'', geometry = None\<rparr>"]
  by (simp add: validPoint_def pointCmds_PArr project_Fin numberToString_0 numberToString_500
      numberToString_250)

text \<open>
  Against C4 as it is stated. A ring of two valid points is not skipped: the path of the
  Polygon holding it has a move, a line and a close.
\<close>

theorem createPath_degenerate_ring_counterexample:
  "length (filter validPoint [PArr [Fin (-180), Fin 90], PArr [Fin (-180), Fin 90]]) < 3
   \<and> createPath numberToString \<lparr>fid = ''X'', name = ''X'',
        geometry = Some (Polygon (Some [[PArr [Fin (-180), Fin 90], PArr [Fin (-180), Fin 90]]]))\<rparr>
      = ''M0,0L0,0Z ''"
  by (simp add: validPoint_def createPath_def drawPolygon_render ringCmds_def pointCmds_PArr
      project_Fin numberToString_0)

text \<open>
  C4, as the code has it. A ring with fewer than three valid points raises no error and
  is not skipped: the path holds one command for each of its valid points, followed by
  the close command, so it is never empty.
\<close>

theorem createPath_degenerate_ring:
  "length (filter validPoint ring) < 3 \<Longrightarrow>
     createPath fmt (f\<lparr>geometry := Some (Polygon (Some [ring]))\<rparr>) = render fmt (ringCmds ring)
     \<and> length (ringCmds ring) = length (filter validPoint ring) + 1
     \<and> last (ringCmds ring) = ClosePath
     \<and> createPath fmt (f\<lparr>geometry := Some (Polygon (Some [ring]))\<rparr>) \<noteq> ''''"
proof -
  have "render fmt (ringCmds ring) \<noteq> ''''"
    by (simp add: ringCmds_def render_append)
  then show ?thesis
    by (simp add: createPath_single_ring drawPolygon_render)
       (simp add: ringCmds_def length_concat_pointCmds)
qed

theorem createPath_degenerate_ring_witness:
  "length (filter validPoint [PArr [Fin (-180), Fin 90], PNull]) < 3
   \<and> createPath numberToString \<lparr>fid = ''X'', name = ''X'',
        geometry = Some (Polygon (Some [[PArr [Fin (-180), Fin 90], PNull]]))\<rparr>
       = render numberToString [MoveTo (Fin 0, Fin 0), ClosePath]
   \<and> length (ringCmds [PArr [Fin (-180), Fin 90], PNull]) = 2"
  using createPath_degenerate_ring [where ring = "[PArr [Fin (-180), Fin 90], PNull]"
      and fmt = numberToString and f = "\<lparr>fid = ''X'', name = ''X'', geometry = None\<rparr>"]
  by (simp add: validPoint_def ringCmds_def pointCmds_PArr pointCmds_def project_Fin)

text \<open>
  C9. The path of a feature is the empty string when its geometry is missing or null, when
  the coordinates of the geometry are missing or null, and when the type of the geometry
  is neither Polygon nor MultiPolygon. The path builder is a total function on features:
  none of its operations raises.
\<close>

theorem createPath_without_geometry:
  "createPath fmt (f\<lparr>geometry := None\<rparr>) = ''''
   \<and> createPath fmt (f\<lparr>geometry := Some (Polygon None)\<rparr>) = ''''
   \<and> createPath fmt (f\<lparr>geometry := Some (MultiPolygon None)\<rparr>) = ''''
   \<and> createPath fmt (f\<lparr>geometry := Some (OtherType present)\<rparr>) = ''''"
  by (simp add: createPath_def)

theorem createPath_without_geometry_witness:
  "createPath numberToString \<lparr>fid = ''ATA'', name = ''Antarctica'', geometry = None\<rparr> = ''''
   \<and> createPath numberToString
        \<lparr>fid = ''ATA'', name = ''Antarctica'', geometry = Some (Polygon None)\<rparr> = ''''
   \<and> createPath numberToString
        \<lparr>fid = ''ATA'', name = ''Antarctica'', geometry = Some (MultiPolygon None)\<rparr> = ''''
   \<and> createPath numberToString
        \<lparr>fid = ''ATA'', name = ''Antarctica'', geometry = Some (OtherType True)\<rparr> = ''''"
  using createPath_without_geometry [where fmt = numberToString and present = True
      and f = "\<lparr>fid = ''ATA'', name = ''Antarctica'', geometry = None\<rparr>"]
  by simp


section \<open>Label anchor: proofs\<close>

lemma pickSpec_Nil: "pickSpec [] n b = (n, b)"
  by (simp add: pickSpec_def)

lemma pickSpec_Cons:
  "pickSpec (r # firsts) n b =
     (if length r > n then pickSpec firsts (length r) r else pickSpec firsts n b)"
proof -
  define A where "A = set (map length firsts)"
  define l where "l = length r"
  have fin: "finite A" by (simp add: A_def)
  have set_eq: "set (map length (r # firsts)) = insert l A"
    by (simp add: A_def l_def)
  have ge: "k \<le> Max (insert k A)" for k using fin by simp
  show ?thesis
  proof (cases "l > n")
    case True
    have "Max (insert n (insert l A)) = max n (Max (insert l A))"
      using fin by (intro Max_insert) simp_all
    also have "\<dots> = Max (insert l A)" using ge [of l] True by (simp add: max_def)
    finally have m: "Max (insert n (insert l A)) = Max (insert l A)" .
    have ne: "Max (insert l A) \<noteq> n" using ge [of l] True by linarith
    have "pickSpec (r # firsts) n b =
        (Max (insert l A), if length r = Max (insert l A) then r
           else (case find (\<lambda>r. length r = Max (insert l A)) firsts of Some r \<Rightarrow> r | None \<Rightarrow> []))"
      unfolding pickSpec_def set_eq m Let_def using ne by simp
    also have "\<dots> = pickSpec firsts (length r) r"
      unfolding pickSpec_def Let_def A_def [symmetric] l_def [symmetric] by auto
    finally show ?thesis using True by (simp add: l_def)
  next
    case False
    have "Max (insert n (insert l A)) = Max (insert l (insert n A))"
      by (simp add: insert_commute)
    also have "\<dots> = max l (Max (insert n A))"
      using fin by (intro Max_insert) simp_all
    also have "\<dots> = Max (insert n A)" using ge [of n] False by (simp add: max_def)
    finally have m: "Max (insert n (insert l A)) = Max (insert n A)" .
    have skip: "Max (insert n A) \<noteq> n \<Longrightarrow> length r \<noteq> Max (insert n A)"
      using ge [of n] False by (simp add: l_def)
    have "pickSpec (r # firsts) n b = pickSpec firsts n b"
      unfolding pickSpec_def set_eq m Let_def A_def [symmetric] using skip by simp
    then show ?thesis using False by (simp add: l_def)
  qed
qed

lemma pickRing_spec:
  "[] \<notin> set polys \<Longrightarrow> pickRing polys (n, b) = Inr (pickSpec (map hd polys) n b)"
proof (induction polys arbitrary: n b)
  case Nil
  show ?case by (simp add: pickSpec_Nil)
next
  case (Cons poly polys)
  from Cons.prems obtain r rs where poly: "poly = r # rs" and rest: "[] \<notin> set polys"
    by (cases poly) auto
  show ?case
    by (simp add: poly pickSpec_Cons Cons.IH [OF rest])
qed

lemma find_length_0:
  "(case find (\<lambda>r. length r = (0::nat)) firsts of Some r \<Rightarrow> r | None \<Rightarrow> []) = []"
  by (induction firsts) simp_all

lemma pickSpec_0: "snd (pickSpec (map hd polys) 0 []) = greatestFirstRing polys"
proof -
  define firsts where "firsts = map hd polys"
  define m where "m = Max (insert 0 (set (map length firsts)))"
  have g: "greatestFirstRing polys
      = (case find (\<lambda>r. length r = m) firsts of Some r \<Rightarrow> r | None \<Rightarrow> [])"
    unfolding greatestFirstRing_def Let_def firsts_def [symmetric] m_def [symmetric] ..
  have p: "snd (pickSpec firsts 0 [])
      = (if m = 0 then []
         else (case find (\<lambda>r. length r = m) firsts of Some r \<Rightarrow> r | None \<Rightarrow> []))"
    unfolding pickSpec_def Let_def m_def [symmetric] by simp
  show ?thesis
  proof (cases "m = 0")
    case True
    with g p find_length_0 [of firsts] show ?thesis by (simp add: firsts_def)
  next
    case False
    with g p show ?thesis by (simp add: firsts_def)
  qed
qed

lemma getLabelPosition_pick:
  assumes "[] \<notin> set polys"
  shows "getLabelPosition (f\<lparr>geometry := Some (MultiPolygon (Some polys))\<rparr>)
          = labelOfRing (greatestFirstRing polys)"
proof -
  obtain m best where mb: "pickSpec (map hd polys) 0 [] = (m, best)"
    by (cases "pickSpec (map hd polys) 0 []")
  with pickSpec_0 [of polys] have "best = greatestFirstRing polys" by simp
  then show ?thesis
    by (simp add: getLabelPosition_def pickRing_spec [OF assms] mb)
qed

lemma project_plane: "project (Fin lon) (Fin lat) = (Fin (planeX lon), Fin (planeY lat))"
  by (simp add: project_def MAP_WIDTH_def MAP_HEIGHT_def planeX_def planeY_def)

lemma lonLat_finitePoint: "lonLat (finitePoint (lon, lat, rest)) = Inr (Fin lon, Fin lat)"
  by (simp add: lonLat_def finitePoint_def memberAt_def)

lemma boundingBox_step:
  "boundingBox (finitePoint (lon, lat, rest) # ps) (Fin a, Fin b, Fin c, Fin d) =
     boundingBox ps (Fin (min (planeX lon) a), Fin (max (planeX lon) b),
                     Fin (min (planeY lat) c), Fin (max (planeY lat) d))"
  by (simp add: lonLat_finitePoint project_plane min_def max_def)

lemma boundingBox_first:
  "boundingBox (finitePoint (lon, lat, rest) # ps) (PInf, NInf, PInf, NInf) =
     boundingBox ps (Fin (planeX lon), Fin (planeX lon), Fin (planeY lat), Fin (planeY lat))"
  by (simp add: lonLat_finitePoint project_plane)

lemma boundingBox_finite:
  "boundingBox (map finitePoint pts) (Fin a, Fin b, Fin c, Fin d) =
     Inr (Fin (fold min (map (planeX \<circ> fst) pts) a), Fin (fold max (map (planeX \<circ> fst) pts) b),
          Fin (fold min (map (planeY \<circ> fst \<circ> snd) pts) c),
          Fin (fold max (map (planeY \<circ> fst \<circ> snd) pts) d))"
proof (induction pts arbitrary: a b c d)
  case Nil
  show ?case by simp
next
  case (Cons pt pts)
  obtain lon lat rest where pt: "pt = (lon, lat, rest)" by (cases pt)
  show ?case
    unfolding pt list.map boundingBox_step Cons.IH by simp
qed

lemma labelOfRing_finite:
  assumes "pts \<noteq> []"
  shows "labelOfRing (map finitePoint pts) =
     Inr (Some (Fin ((Min (set (map (planeX \<circ> fst) pts)) + Max (set (map (planeX \<circ> fst) pts))) / 2),
                Fin ((Min (set (map (planeY \<circ> fst \<circ> snd) pts))
                      + Max (set (map (planeY \<circ> fst \<circ> snd) pts))) / 2)))"
proof -
  from assms obtain lon lat rest ps where pts: "pts = (lon, lat, rest) # ps"
    by (cases pts) auto
  have bb: "boundingBox (map finitePoint pts) (PInf, NInf, PInf, NInf) =
     Inr (Fin (Min (set (map (planeX \<circ> fst) pts))), Fin (Max (set (map (planeX \<circ> fst) pts))),
          Fin (Min (set (map (planeY \<circ> fst \<circ> snd) pts))),
          Fin (Max (set (map (planeY \<circ> fst \<circ> snd) pts))))"
    unfolding pts list.map boundingBox_first boundingBox_finite
    by (simp only: Min.set_eq_fold Max.set_eq_fold comp_def fst_conv snd_conv)
  show ?thesis
    unfolding labelOfRing_def bb using assms by simp
qed

text \<open>
  Where every polygon of a MultiPolygon has a first ring, the code does what the
  specification says: the label anchor is computed from the first of the first rings that
  has the greatest vertex count; it is \<open>null\<close> when that ring is empty, in particular
  when the MultiPolygon has no polygon; and when the points of that ring have finite
  coordinates, it is the midpoint of the bounding box of their projections.
\<close>

lemma getLabelPosition_MultiPolygon:
  assumes "[] \<notin> set polys"
  shows "getLabelPosition (f\<lparr>geometry := Some (MultiPolygon (Some polys))\<rparr>)
           = labelOfRing (greatestFirstRing polys)
     \<and> (greatestFirstRing polys = [] \<longrightarrow>
          getLabelPosition (f\<lparr>geometry := Some (MultiPolygon (Some polys))\<rparr>) = Inr None)
     \<and> (pts \<noteq> [] \<and> greatestFirstRing polys = map finitePoint pts \<longrightarrow>
          getLabelPosition (f\<lparr>geometry := Some (MultiPolygon (Some polys))\<rparr>)
            = Inr (Some
                (Fin ((Min (set (map (planeX \<circ> fst) pts)) + Max (set (map (planeX \<circ> fst) pts))) / 2),
                 Fin ((Min (set (map (planeY \<circ> fst \<circ> snd) pts))
                       + Max (set (map (planeY \<circ> fst \<circ> snd) pts))) / 2))))
     \<and> getLabelPosition (f\<lparr>geometry := Some (MultiPolygon (Some []))\<rparr>) = Inr None"
proof (intro conjI impI)
  show pick: "getLabelPosition (f\<lparr>geometry := Some (MultiPolygon (Some polys))\<rparr>)
           = labelOfRing (greatestFirstRing polys)"
    using assms by (rule getLabelPosition_pick)
  show "getLabelPosition (f\<lparr>geometry := Some (MultiPolygon (Some polys))\<rparr>) = Inr None"
    if "greatestFirstRing polys = []"
    using that by (simp add: pick labelOfRing_def)
  show "getLabelPosition (f\<lparr>geometry := Some (MultiPolygon (Some polys))\<rparr>)
            = Inr (Some
                (Fin ((Min (set (map (planeX \<circ> fst) pts)) + Max (set (map (planeX \<circ> fst) pts))) / 2),
                 Fin ((Min (set (map (planeY \<circ> fst \<circ> snd) pts))
                       + Max (set (map (planeY \<circ> fst \<circ> snd) pts))) / 2)))"
    if h: "pts \<noteq> [] \<and> greatestFirstRing polys = map finitePoint pts"
  proof -
    from h have ne: "pts \<noteq> []" and eq: "greatestFirstRing polys = map finitePoint pts"
      by simp_all
    show ?thesis unfolding pick eq by (rule labelOfRing_finite [OF ne])
  qed
  show "getLabelPosition (f\<lparr>geometry := Some (MultiPolygon (Some []))\<rparr>) = Inr None"
    by (simp add: getLabelPosition_def labelOfRing_def)
qed

lemma greatestFirstRing_example:
  "greatestFirstRing
     [[[PArr [Fin 0, Fin 0]]], [[PArr [Fin (-180), Fin 90], PArr [Fin 0, Fin 0]]]]
   = [PArr [Fin (-180), Fin 90], PArr [Fin 0, Fin 0]]"
  by (simp add: greatestFirstRing_def)

lemma getLabelPosition_MultiPolygon_example:
  "[] \<notin> set [[[PArr [Fin 0, Fin 0]]], [[PArr [Fin (-180), Fin 90], PArr [Fin 0, Fin 0]]]]
   \<and> greatestFirstRing
        [[[PArr [Fin 0, Fin 0]]], [[PArr [Fin (-180), Fin 90], PArr [Fin 0, Fin 0]]]]
      = map finitePoint [(-180, 90, []), (0, 0, [])]
   \<and> getLabelPosition \<lparr>fid = ''NZL'', name = ''New Zealand'', geometry = Some (MultiPolygon (Some
        [[[PArr [Fin 0, Fin 0]]], [[PArr [Fin (-180), Fin 90], PArr [Fin 0, Fin 0]]]]))\<rparr>
      = Inr (Some (Fin 250, Fin 125))"
proof -
  let ?polys = "[[[PArr [Fin 0, Fin 0]]], [[PArr [Fin (-180), Fin 90], PArr [Fin 0, Fin 0]]]]"
  let ?pts = "[(-180, 90, []), (0, 0, [])] :: (real \<times> real \<times> num list) list"
  have h: "[] \<notin> set ?polys" by simp
  have g: "greatestFirstRing ?polys = map finitePoint ?pts"
    by (simp add: greatestFirstRing_example finitePoint_def)
  note t = getLabelPosition_MultiPolygon [OF h, where pts = ?pts
      and f = "\<lparr>fid = ''NZL'', name = ''New Zealand'', geometry = None\<rparr>"]
  from t [THEN conjunct2, THEN conjunct2, THEN conjunct1] g
  have "getLabelPosition \<lparr>fid = ''NZL'', name = ''New Zealand'',
          geometry = Some (MultiPolygon (Some ?polys))\<rparr>
      = Inr (Some (Fin 250, Fin 125))"
    by (simp add: planeX_def planeY_def)
  with h g show ?thesis by (simp only: simp_thms)
qed

lemma pickRing_raises: "[] \<in> set polys \<Longrightarrow> pickRing polys acc = Inl TypeError"
proof (induction polys arbitrary: acc)
  case Nil
  then show ?case by simp
next
  case (Cons poly polys)
  obtain n b where acc: "acc = (n, b)" by (cases acc)
  show ?case
  proof (cases poly)
    case Nil
    then show ?thesis by (simp add: acc)
  next
    case (Cons r rs)
    with Cons.prems have "[] \<in> set polys" by simp
    then show ?thesis using Cons.IH by (simp add: acc Cons)
  qed
qed

text \<open>
  Every MultiPolygon that holds a polygon without rings makes \<open>getLabelPosition\<close> raise,
  whatever its other polygons are.
\<close>

lemma getLabelPosition_raises:
  "[] \<in> set polys \<Longrightarrow>
   getLabelPosition (f\<lparr>geometry := Some (MultiPolygon (Some polys))\<rparr>) = Inl TypeError"
  by (simp add: getLabelPosition_def pickRing_raises)

text \<open>
  C7. The code breaks the claim on a MultiPolygon that holds a polygon without rings.
  For the MultiPolygon whose only polygon has no ring there is no usable ring, and the
  claim gives \<open>null\<close>; the code reads \<open>poly[0].length\<close> of an undefined \<open>poly[0]\<close> and
  raises a \<open>TypeError\<close>. It raises as well when another polygon does have a ring, from
  which the claim computes the anchor. Where the geometry holds no polygon at all the
  result is \<open>null\<close>, and so it is in the Polygon branch, which tests the number of rings
  before it reads the first one.
\<close>

theorem getLabelPosition_polygon_without_rings:
  "getLabelPosition \<lparr>fid = ''NZL'', name = ''New Zealand'',
       geometry = Some (MultiPolygon (Some [[]]))\<rparr> = Inl TypeError
   \<and> getLabelPosition \<lparr>fid = ''NZL'', name = ''New Zealand'',
       geometry = Some (MultiPolygon (Some
         [[[PArr [Fin (-180), Fin 90], PArr [Fin 0, Fin 0]]], []]))\<rparr> = Inl TypeError
   \<and> getLabelPosition \<lparr>fid = ''NZL'', name = ''New Zealand'',
       geometry = Some (MultiPolygon (Some []))\<rparr> = Inr None
   \<and> getLabelPosition \<lparr>fid = ''NZL'', name = ''New Zealand'',
       geometry = Some (Polygon (Some []))\<rparr> = Inr None"
  by (simp add: getLabelPosition_def labelOfRing_def)

section \<open>Viewport transform and gestures: proofs\<close>

lemma minus_Fin: "Fin a - Fin b = Fin (a - b)"
  by (simp add: minus_num_def)

lemma clamp_Fin: "Math_max (Fin 1) (Math_min (Fin 8) (Fin a)) = Fin (max 1 (min 8 a))"
  by (simp add: Math_max_def Math_min_def max_def min_def)

lemma clamp_bounds: "1 \<le> max 1 (min 8 (a::real)) \<and> max 1 (min 8 a) \<le> 8"
  by (simp add: max_def min_def)

lemma focal_fixed:
  fixes F x0 k0 k' :: real
  assumes "k0 \<noteq> 0" "k' \<noteq> 0"
  shows "(F - (F - (F - x0) * (k' / k0))) / k' = (F - x0) / k0"
  using assms by (simp add: field_simps)

lemma transform_handleZoom:
  assumes "transform s = \<lparr>tk = Fin k0, tx = Fin x0, ty = Fin y0\<rparr>" "k0 \<noteq> 0"
  shows "transform (handleZoom (Fin factor) s) =
     \<lparr>tk = Fin (max 1 (min 8 (k0 * factor))),
      tx = Fin (500 - (500 - x0) * (max 1 (min 8 (k0 * factor)) / k0)),
      ty = Fin (250 - (250 - y0) * (max 1 (min 8 (k0 * factor)) / k0))\<rparr>"
proof -
  have c: "MAP_WIDTH / Fin 2 = Fin 500" "MAP_HEIGHT / Fin 2 = Fin 250"
    by (simp_all add: MAP_WIDTH_def MAP_HEIGHT_def)
  show ?thesis
    unfolding handleZoom_def Let_def c using assms
    by (simp add: clamp_Fin minus_Fin)
qed

lemma svg_Fin:
  "w \<noteq> 0 \<Longrightarrow> Fin m * (MAP_WIDTH / Fin w) = Fin (m * (1000 / w))"
  "h \<noteq> 0 \<Longrightarrow> Fin m * (MAP_HEIGHT / Fin h) = Fin (m * (500 / h))"
  by (simp_all add: MAP_WIDTH_def MAP_HEIGHT_def)

lemma transform_handleWheel:
  assumes "transform s = \<lparr>tk = Fin k0, tx = Fin x0, ty = Fin y0\<rparr>" "k0 \<noteq> 0"
    and "mapRef s = Some rect" "rwidth rect \<noteq> 0" "rheight rect \<noteq> 0"
  shows "transform (handleWheel deltaY clientX clientY s) =
     (let fx = (clientX - rleft rect) * (1000 / rwidth rect);
          fy = (clientY - rtop rect) * (500 / rheight rect);
          k' = max 1 (min 8 (k0 * (if deltaY > 0 then 0.9 else 1.1)))
      in \<lparr>tk = Fin k', tx = Fin (fx - (fx - x0) * (k' / k0)), ty = Fin (fy - (fy - y0) * (k' / k0))\<rparr>)"
proof -
  have sf: "tk (transform s) * (if deltaY > 0 then Fin 0.9 else Fin 1.1)
      = Fin (k0 * (if deltaY > 0 then 0.9 else 1.1))"
    using assms(1) by simp
  show ?thesis
    unfolding handleWheel_def Let_def assms(3) option.case sf clamp_Fin
      svg_Fin(1) [OF assms(4)] svg_Fin(2) [OF assms(5)]
    using assms(1,2) by (simp add: minus_Fin)
qed

lemma transform_handleTouchMove:
  assumes "transform s = \<lparr>tk = Fin k0, tx = Fin x0, ty = Fin y0\<rparr>" "k0 \<noteq> 0"
    and "mapRef s = Some rect" "rwidth rect \<noteq> 0" "rheight rect \<noteq> 0"
    and "pinchDistanceRef s = Some d" "d \<noteq> 0" "pinchStartScaleRef s = Fin p"
  shows "transform (handleTouchMove t0 [t1] s) =
     (let fx = (fst (getTouchMidpoint t0 t1) - rleft rect) * (1000 / rwidth rect);
          fy = (snd (getTouchMidpoint t0 t1) - rtop rect) * (500 / rheight rect);
          k' = max 1 (min 8 (p * (getTouchDistance t0 t1 / d)))
      in \<lparr>tk = Fin k', tx = Fin (fx - (fx - x0) * (k' / k0)), ty = Fin (fy - (fy - y0) * (k' / k0))\<rparr>)"
proof -
  have sf: "pinchStartScaleRef s * Fin (getTouchDistance t0 t1 / d)
      = Fin (p * (getTouchDistance t0 t1 / d))"
    using assms(8) by simp
  show ?thesis
    unfolding handleTouchMove_def Let_def assms(3,6) option.case prod.case list.case sf clamp_Fin
      svg_Fin(1) [OF assms(4)] svg_Fin(2) [OF assms(5)]
    using assms(1,2,7) by (simp add: minus_Fin)
qed

text \<open>
  C1. From a finite transform of scale \<open>k0 > 0\<close>, each of the three zooms yields the scale
  \<open>k'\<close> clamped to \<open>[1, 8]\<close> and the translation \<open>F - (F - x0) * (k' / k0)\<close> in each axis,
  and the plane coordinate that the transform maps to the focal point \<open>F\<close> is unchanged:
  \<open>(F - x') / k' = (F - x0) / k0\<close>. The focal point is the centre \<open>(500, 250)\<close> of the
  canvas for the button zoom, the position of the cursor in canvas units for the wheel
  zoom, and the midpoint of the two touches in canvas units for the pinch zoom; for the
  last two the surface has a width and a height other than zero.
\<close>

theorem zoom_keeps_focal_point:
  assumes "transform s = \<lparr>tk = Fin k0, tx = Fin x0, ty = Fin y0\<rparr>" and "0 < k0"
  shows
    "(let k' = max 1 (min 8 (k0 * factor));
          x' = 500 - (500 - x0) * (k' / k0);
          y' = 250 - (250 - y0) * (k' / k0)
      in transform (handleZoom (Fin factor) s) = \<lparr>tk = Fin k', tx = Fin x', ty = Fin y'\<rparr>
         \<and> (500 - x') / k' = (500 - x0) / k0 \<and> (250 - y') / k' = (250 - y0) / k0)
     \<and> (mapRef s = Some rect \<and> rwidth rect \<noteq> 0 \<and> rheight rect \<noteq> 0 \<longrightarrow>
         (let fx = (clientX - rleft rect) * (1000 / rwidth rect);
              fy = (clientY - rtop rect) * (500 / rheight rect);
              k' = max 1 (min 8 (k0 * (if deltaY > 0 then 0.9 else 1.1)));
              x' = fx - (fx - x0) * (k' / k0);
              y' = fy - (fy - y0) * (k' / k0)
          in transform (handleWheel deltaY clientX clientY s) = \<lparr>tk = Fin k', tx = Fin x', ty = Fin y'\<rparr>
             \<and> (fx - x') / k' = (fx - x0) / k0 \<and> (fy - y') / k' = (fy - y0) / k0))
     \<and> (mapRef s = Some rect \<and> rwidth rect \<noteq> 0 \<and> rheight rect \<noteq> 0
          \<and> pinchDistanceRef s = Some d \<and> d \<noteq> 0 \<and> pinchStartScaleRef s = Fin p \<longrightarrow>
         (let fx = (fst (getTouchMidpoint t0 t1) - rleft rect) * (1000 / rwidth rect);
              fy = (snd (getTouchMidpoint t0 t1) - rtop rect) * (500 / rheight rect);
              k' = max 1 (min 8 (p * (getTouchDistance t0 t1 / d)));
              x' = fx - (fx - x0) * (k' / k0);
              y' = fy - (fy - y0) * (k' / k0)
          in transform (handleTouchMove t0 [t1] s) = \<lparr>tk = Fin k', tx = Fin x', ty = Fin y'\<rparr>
             \<and> (fx - x') / k' = (fx - x0) / k0 \<and> (fy - y') / k' = (fy - y0) / k0))"
proof -
  from assms(2) have k0: "k0 \<noteq> 0" by simp
  have k': "max 1 (min 8 a) \<noteq> (0::real)" for a
    using clamp_bounds [of a] by linarith
  note fixed = focal_fixed [OF k0 k']
  have button: "transform (handleZoom (Fin factor) s) =
     \<lparr>tk = Fin (max 1 (min 8 (k0 * factor))),
      tx = Fin (500 - (500 - x0) * (max 1 (min 8 (k0 * factor)) / k0)),
      ty = Fin (250 - (250 - y0) * (max 1 (min 8 (k0 * factor)) / k0))\<rparr>"
    by (rule transform_handleZoom [OF assms(1) k0])
  have wheel: "transform (handleWheel deltaY clientX clientY s) =
     (let fx = (clientX - rleft rect) * (1000 / rwidth rect);
          fy = (clientY - rtop rect) * (500 / rheight rect);
          k' = max 1 (min 8 (k0 * (if deltaY > 0 then 0.9 else 1.1)))
      in \<lparr>tk = Fin k', tx = Fin (fx - (fx - x0) * (k' / k0)), ty = Fin (fy - (fy - y0) * (k' / k0))\<rparr>)"
    if "mapRef s = Some rect \<and> rwidth rect \<noteq> 0 \<and> rheight rect \<noteq> 0"
    using that by (intro transform_handleWheel [OF assms(1) k0]) simp_all
  have pinch: "transform (handleTouchMove t0 [t1] s) =
     (let fx = (fst (getTouchMidpoint t0 t1) - rleft rect) * (1000 / rwidth rect);
          fy = (snd (getTouchMidpoint t0 t1) - rtop rect) * (500 / rheight rect);
          k' = max 1 (min 8 (p * (getTouchDistance t0 t1 / d)))
      in \<lparr>tk = Fin k', tx = Fin (fx - (fx - x0) * (k' / k0)), ty = Fin (fy - (fy - y0) * (k' / k0))\<rparr>)"
    if "mapRef s = Some rect \<and> rwidth rect \<noteq> 0 \<and> rheight rect \<noteq> 0
          \<and> pinchDistanceRef s = Some d \<and> d \<noteq> 0 \<and> pinchStartScaleRef s = Fin p"
    using that by (intro transform_handleTouchMove [OF assms(1) k0]) simp_all
  show ?thesis
  proof (intro conjI impI)
    show "let k' = max 1 (min 8 (k0 * factor));
          x' = 500 - (500 - x0) * (k' / k0);
          y' = 250 - (250 - y0) * (k' / k0)
      in transform (handleZoom (Fin factor) s) = \<lparr>tk = Fin k', tx = Fin x', ty = Fin y'\<rparr>
         \<and> (500 - x') / k' = (500 - x0) / k0 \<and> (250 - y') / k' = (250 - y0) / k0"
      unfolding Let_def button fixed by simp
  next
    assume h: "mapRef s = Some rect \<and> rwidth rect \<noteq> 0 \<and> rheight rect \<noteq> 0"
    show "let fx = (clientX - rleft rect) * (1000 / rwidth rect);
              fy = (clientY - rtop rect) * (500 / rheight rect);
              k' = max 1 (min 8 (k0 * (if deltaY > 0 then 0.9 else 1.1)));
              x' = fx - (fx - x0) * (k' / k0);
              y' = fy - (fy - y0) * (k' / k0)
          in transform (handleWheel deltaY clientX clientY s) = \<lparr>tk = Fin k', tx = Fin x', ty = Fin y'\<rparr>
             \<and> (fx - x') / k' = (fx - x0) / k0 \<and> (fy - y') / k' = (fy - y0) / k0"
      using wheel [OF h] unfolding Let_def fixed by simp
  next
    assume h: "mapRef s = Some rect \<and> rwidth rect \<noteq> 0 \<and> rheight rect \<noteq> 0
          \<and> pinchDistanceRef s = Some d \<and> d \<noteq> 0 \<and> pinchStartScaleRef s = Fin p"
    show "let fx = (fst (getTouchMidpoint t0 t1) - rleft rect) * (1000 / rwidth rect);
              fy = (snd (getTouchMidpoint t0 t1) - rtop rect) * (500 / rheight rect);
              k' = max 1 (min 8 (p * (getTouchDistance t0 t1 / d)));
              x' = fx - (fx - x0) * (k' / k0);
              y' = fy - (fy - y0) * (k' / k0)
          in transform (handleTouchMove t0 [t1] s) = \<lparr>tk = Fin k', tx = Fin x', ty = Fin y'\<rparr>
             \<and> (fx - x') / k' = (fx - x0) / k0 \<and> (fy - y') / k' = (fy - y0) / k0"
      using pinch [OF h] unfolding Let_def fixed by simp
  qed
qed

lemma getTouchDistance_horizontal: "getTouchDistance (a, y) (b, y) = \<bar>a - b\<bar>"
  by (simp add: getTouchDistance_def)

theorem zoom_keeps_focal_point_witness:
  "transform zoomedState = \<lparr>tk = Fin 2, tx = Fin (-100), ty = Fin (-50)\<rparr> \<and> (0::real) < 2
   \<and> transform (handleZoom (Fin 1.2) zoomedState) = \<lparr>tk = Fin 2.4, tx = Fin (-220), ty = Fin (-110)\<rparr>
   \<and> (500 - (-220)) / 2.4 = (500 - (-100)) / (2::real)
   \<and> transform (handleWheel (-1) 100 50 zoomedState) = \<lparr>tk = Fin 2.2, tx = Fin (-130), ty = Fin (-65)\<rparr>
   \<and> (200 - (-130)) / 2.2 = (200 - (-100)) / (2::real)
   \<and> transform (handleTouchMove (0, 0) [(20, 0)] zoomedState) = \<lparr>tk = Fin 4, tx = Fin (-220), ty = Fin (-100)\<rparr>
   \<and> (20 - (-220)) / 4 = (20 - (-100)) / (2::real)"
proof -
  have t: "transform zoomedState = \<lparr>tk = Fin 2, tx = Fin (-100), ty = Fin (-50)\<rparr>"
    by (simp add: zoomedState_def)
  have k: "(0::real) < 2" by simp
  note z = zoom_keeps_focal_point [OF t k, where factor = "1.2"
      and rect = "\<lparr>rleft = 0, rtop = 0, rwidth = 500, rheight = 250\<rparr>"
      and clientX = 100 and clientY = 50 and deltaY = "-1" and d = 10 and p = 2
      and ?t0.0 = "(0, 0)" and ?t1.0 = "(20, 0)"]
  have a: "transform (handleZoom (Fin 1.2) zoomedState) = \<lparr>tk = Fin 2.4, tx = Fin (-220), ty = Fin (-110)\<rparr>"
    using z [THEN conjunct1] by (simp add: Let_def)
  have b: "transform (handleWheel (-1) 100 50 zoomedState) = \<lparr>tk = Fin 2.2, tx = Fin (-130), ty = Fin (-65)\<rparr>"
    using z [THEN conjunct2, THEN conjunct1] by (simp add: Let_def zoomedState_def)
  have c: "transform (handleTouchMove (0, 0) [(20, 0)] zoomedState) = \<lparr>tk = Fin 4, tx = Fin (-220), ty = Fin (-100)\<rparr>"
    using z [THEN conjunct2, THEN conjunct2]
    by (simp add: Let_def zoomedState_def getTouchDistance_horizontal getTouchMidpoint_def)
  from t a b c show ?thesis by simp
qed

lemma in_range_Fin:
  "Fin 1 \<le> a \<Longrightarrow> a \<le> Fin 8 \<Longrightarrow> \<exists>r. a = Fin r \<and> 1 \<le> r \<and> r \<le> 8"
  by (cases a) simp_all

lemma isFinite_iff: "isFinite a = (\<exists>r. a = Fin r)"
  by (cases a) (simp_all add: isFinite_def)

lemma scaleInvariantI:
  "tk (transform s) = Fin r \<Longrightarrow> 1 \<le> r \<Longrightarrow> r \<le> 8 \<Longrightarrow> pinchStartScaleRef s = Fin p \<Longrightarrow>
   scaleInvariant s"
  by (simp add: scaleInvariant_def isFinite_def)

lemma scaleInvariantE:
  assumes "scaleInvariant s"
  obtains r p where "tk (transform s) = Fin r" "1 \<le> r" "r \<le> 8" "pinchStartScaleRef s = Fin p"
proof -
  from assms have a: "Fin 1 \<le> tk (transform s)" and b: "tk (transform s) \<le> Fin 8"
    and c: "isFinite (pinchStartScaleRef s)"
    by (simp_all add: scaleInvariant_def)
  from in_range_Fin [OF a b] obtain r where "tk (transform s) = Fin r" "1 \<le> r" "r \<le> 8"
    by blast
  moreover from c obtain p where "pinchStartScaleRef s = Fin p"
    by (auto simp: isFinite_iff)
  ultimately show thesis by (rule that)
qed

lemma tk_handleZoom:
  "tk (transform s) = Fin r \<Longrightarrow>
   tk (transform (handleZoom (Fin f) s)) = Fin (max 1 (min 8 (r * f)))"
  by (simp add: handleZoom_def Let_def clamp_Fin)

lemma tk_handleWheel:
  "tk (transform s) = Fin r \<Longrightarrow>
   \<exists>r'. tk (transform (handleWheel deltaY clientX clientY s)) = Fin r' \<and> 1 \<le> r' \<and> r' \<le> 8
        \<or> handleWheel deltaY clientX clientY s = s"
  by (cases "mapRef s") (simp_all add: handleWheel_def Let_def clamp_Fin max_def min_def)

lemma tk_handleMouseMove:
  "tk (transform (handleMouseMove clientX clientY s)) = tk (transform s)"
  by (simp add: handleMouseMove_def Let_def)

lemma pss_handleMouseMove:
  "pinchStartScaleRef (handleMouseMove clientX clientY s) = pinchStartScaleRef s"
  by (simp add: handleMouseMove_def Let_def)

lemma scaleInvariant_handleMouseMove:
  "scaleInvariant s \<Longrightarrow> scaleInvariant (handleMouseMove clientX clientY s)"
  by (simp add: scaleInvariant_def tk_handleMouseMove pss_handleMouseMove)

lemma pss_handleZoom: "pinchStartScaleRef (handleZoom f s) = pinchStartScaleRef s"
  by (simp add: handleZoom_def Let_def)

lemma pss_handleWheel: "pinchStartScaleRef (handleWheel a b c s) = pinchStartScaleRef s"
  by (cases "mapRef s") (simp_all add: handleWheel_def Let_def)

lemma scaleInvariant_handleZoom:
  assumes "scaleInvariant s"
  shows "scaleInvariant (handleZoom (Fin f) s)"
proof -
  from assms obtain r p where r: "tk (transform s) = Fin r" and p: "pinchStartScaleRef s = Fin p"
    by (rule scaleInvariantE)
  show ?thesis
    by (intro scaleInvariantI [where p = p and r = "max 1 (min 8 (r * f))"])
       (simp_all add: tk_handleZoom [OF r] pss_handleZoom p clamp_bounds)
qed

lemma scaleInvariant_handleWheel:
  assumes "scaleInvariant s"
  shows "scaleInvariant (handleWheel deltaY clientX clientY s)"
proof -
  from assms obtain r p where r: "tk (transform s) = Fin r" and p: "pinchStartScaleRef s = Fin p"
    by (rule scaleInvariantE)
  from tk_handleWheel [OF r, of deltaY clientX clientY]
  show ?thesis
  proof (elim disjE exE conjE)
    fix r' assume "tk (transform (handleWheel deltaY clientX clientY s)) = Fin r'" "1 \<le> r'" "r' \<le> 8"
    then show ?thesis
      by (rule scaleInvariantI) (simp add: pss_handleWheel p)
  next
    assume "handleWheel deltaY clientX clientY s = s"
    with assms show ?thesis by simp
  qed
qed

lemma scaleInvariant_pinch:
  assumes "scaleInvariant s" "d \<noteq> 0" "pinchDistanceRef s = Some d" "mapRef s = Some rect"
  shows "scaleInvariant (handleTouchMove t0 [t1] s)"
proof -
  from assms(1) obtain r p where r: "tk (transform s) = Fin r" and p: "pinchStartScaleRef s = Fin p"
    by (rule scaleInvariantE)
  have "tk (transform (handleTouchMove t0 [t1] s))
      = Fin (max 1 (min 8 (p * (getTouchDistance t0 t1 / d))))"
    using assms(2) by (simp add: handleTouchMove_def assms(3,4) Let_def p clamp_Fin)
  moreover have "pinchStartScaleRef (handleTouchMove t0 [t1] s) = Fin p"
    using assms(2) by (simp add: handleTouchMove_def assms(3,4) Let_def p)
  ultimately show ?thesis
    by (intro scaleInvariantI [where p = p and r = "max 1 (min 8 (p * (getTouchDistance t0 t1 / d)))"])
       (simp_all add: clamp_bounds)
qed

lemma handleTouchMove_cases:
  "(\<exists>t1 d rect. ts = [t1] \<and> pinchDistanceRef s = Some d \<and> d \<noteq> 0 \<and> mapRef s = Some rect)
   \<or> handleTouchMove t0 ts s = handleMouseMove (fst t0) (snd t0) s"
  by (simp add: handleTouchMove_def split: list.splits option.splits)

lemma scaleInvariant_handleTouchMove:
  assumes "scaleInvariant s"
  shows "scaleInvariant (handleTouchMove t0 ts s)"
  using handleTouchMove_cases [of ts s t0]
proof (elim disjE exE conjE)
  fix t1 d rect
  assume "ts = [t1]" "pinchDistanceRef s = Some d" "d \<noteq> 0" "mapRef s = Some rect"
  with assms show ?thesis by (simp add: scaleInvariant_pinch)
next
  assume "handleTouchMove t0 ts s = handleMouseMove (fst t0) (snd t0) s"
  with assms show ?thesis by (simp add: scaleInvariant_handleMouseMove)
qed

lemma scaleInvariant_handleTouchStart:
  assumes "scaleInvariant s"
  shows "scaleInvariant (handleTouchStart t0 ts s)"
proof -
  from assms obtain r p where r: "tk (transform s) = Fin r" "1 \<le> r" "r \<le> 8"
    and p: "pinchStartScaleRef s = Fin p"
    by (rule scaleInvariantE)
  then show ?thesis
    by (simp add: scaleInvariant_def isFinite_def handleTouchStart_def handleMouseDown_def
        split: list.splits)
qed

lemma scaleInvariant_handleTouchEnd:
  assumes "scaleInvariant s"
  shows "scaleInvariant (handleTouchEnd ts s)"
proof -
  from assms obtain r p where r: "tk (transform s) = Fin r" "1 \<le> r" "r \<le> 8"
    and p: "pinchStartScaleRef s = Fin p"
    by (rule scaleInvariantE)
  then show ?thesis
    by (simp add: scaleInvariant_def isFinite_def handleTouchEnd_def handleMouseUp_def Let_def)
qed

lemma scaleInvariant_step:
  assumes "scaleInvariant s"
  shows "scaleInvariant (step s e)"
proof (cases e)
  case ZoomInButton
  with assms show ?thesis by (simp add: scaleInvariant_handleZoom)
next
  case ZoomOutButton
  with assms show ?thesis by (simp add: scaleInvariant_handleZoom)
next
  case ResetButton
  with assms show ?thesis by (simp add: scaleInvariant_def handleResetZoom_def)
next
  case (Wheel a b c)
  with assms show ?thesis by (simp add: scaleInvariant_handleWheel)
next
  case (MouseDown a b)
  with assms show ?thesis by (simp add: scaleInvariant_def handleMouseDown_def)
next
  case (MouseMove a b)
  with assms show ?thesis by (simp add: scaleInvariant_handleMouseMove)
next
  case MouseUp
  with assms show ?thesis by (simp add: scaleInvariant_def handleMouseUp_def)
next
  case MouseLeave
  with assms show ?thesis by (simp add: scaleInvariant_def handleMouseUp_def)
next
  case (TouchStart t0 ts)
  with assms show ?thesis by (simp add: scaleInvariant_handleTouchStart)
next
  case (TouchMove t0 ts)
  with assms show ?thesis by (simp add: scaleInvariant_handleTouchMove)
next
  case (TouchEnd ts)
  with assms show ?thesis by (simp add: scaleInvariant_handleTouchEnd)
next
  case (Click f)
  with assms show ?thesis
    by (simp add: scaleInvariant_def handleCountryClick_def toggleCountry_def)
next
  case (Layout r)
  with assms show ?thesis by (simp add: scaleInvariant_def)
qed

lemma scaleInvariant_run: "scaleInvariant s \<Longrightarrow> scaleInvariant (run s es)"
  unfolding run_def by (induction es arbitrary: s) (simp_all add: scaleInvariant_step)

lemma scaleInvariant_initial: "scaleInvariant initial"
  by (simp add: scaleInvariant_def initial_def isFinite_def)

text \<open>
  C2. After any finite sequence of events from the initial state (the zoom buttons, the
  wheel, touches, mouse presses, moves and releases, the reset, clicks and changes of the
  layout), the scale of the transform is a number between 1 and 8.
\<close>

theorem scale_always_clamped:
  "\<exists>r. tk (transform (run initial es)) = Fin r \<and> 1 \<le> r \<and> r \<le> 8"
  using scaleInvariant_run [OF scaleInvariant_initial, of es]
  by (auto elim: scaleInvariantE)

theorem scale_always_clamped_witness:
  "tk (transform (run initial [ZoomInButton, ZoomInButton])) = Fin 1.44
   \<and> tk (transform (run initial [ZoomOutButton])) = Fin 1
   \<and> tk (transform (run initial
        [Layout (Some \<lparr>rleft = 0, rtop = 0, rwidth = 800, rheight = 400\<rparr>),
         TouchStart (100, 100) [(200, 100)], TouchMove (0, 100) [(900, 100)],
         TouchEnd [], Wheel 1 400 200])) = Fin 7.2"
  using scale_always_clamped [of "[ZoomInButton, ZoomInButton]"]
    scale_always_clamped [of "[ZoomOutButton]"]
    scale_always_clamped [of "[Layout (Some \<lparr>rleft = 0, rtop = 0, rwidth = 800, rheight = 400\<rparr>),
         TouchStart (100, 100) [(200, 100)], TouchMove (0, 100) [(900, 100)],
         TouchEnd [], Wheel 1 400 200]"]
  by (simp add: run_def initial_def handleZoom_def handleWheel_def handleTouchStart_def
      handleTouchMove_def handleTouchEnd_def handleMouseUp_def Let_def clamp_Fin
      getTouchDistance_horizontal)

lemma run_Nil: "run s [] = s"
  by (simp add: run_def)

lemma run_Cons: "run s (e # es) = run (step s e) es"
  by (simp add: run_def)

lemma run_append: "run s (es @ fs) = run (run s es) fs"
  by (simp add: run_def)

lemma handleMouseMove_dragging:
  assumes "isDragging s"
  shows "isDragging (handleMouseMove x y s)"
    and "lastMousePos (handleMouseMove x y s) = (x, y)"
    and "isDragRef (handleMouseMove x y s)
          = (isDragRef s \<or> \<bar>x - fst (lastMousePos s)\<bar> > 2 \<or> \<bar>y - snd (lastMousePos s)\<bar> > 2)"
    and "toggled (handleMouseMove x y s) = toggled s"
  using assms by (auto simp: handleMouseMove_def Let_def)

lemma run_moves:
  "isDragging s \<Longrightarrow>
   isDragging (run s (moves ps))
   \<and> isDragRef (run s (moves ps)) = (isDragRef s \<or> someMoveExceeds (lastMousePos s) ps)
   \<and> toggled (run s (moves ps)) = toggled s"
proof (induction ps arbitrary: s)
  case Nil
  then show ?case by (simp add: moves_def run_Nil)
next
  case (Cons q qs)
  let ?s = "handleMouseMove (fst q) (snd q) s"
  have r: "run s (moves (q # qs)) = run ?s (moves qs)"
    by (simp add: moves_def run_Cons)
  note h = handleMouseMove_dragging [OF Cons.prems, of "fst q" "snd q"]
  from Cons.IH [OF h(1)] show ?case
    unfolding r h by auto
qed

lemma session_moves:
  "isDragging (run s (MouseDown x0 y0 # moves ps))
   \<and> isDragRef (run s (MouseDown x0 y0 # moves ps)) = someMoveExceeds (x0, y0) ps
   \<and> toggled (run s (MouseDown x0 y0 # moves ps)) = toggled s"
proof -
  let ?s = "handleMouseDown x0 y0 s"
  have d: "isDragging ?s" "\<not> isDragRef ?s" "lastMousePos ?s = (x0, y0)" "toggled ?s = toggled s"
    by (simp_all add: handleMouseDown_def)
  from run_moves [OF d(1), of ps] show ?thesis
    by (simp add: run_Cons d)
qed

text \<open>
  What the handlers compute in a pointer session: the drag flag is set exactly when one of
  the moves, measured from the position of the previous event, exceeds 2 pixels in an
  axis, and the click after the release is let through exactly when no move did. A single
  move of one pixel lets the click through and a single move of three pixels does not.
\<close>

lemma drag_flag_per_move:
  "isDragRef (run s (MouseDown x0 y0 # moves ps)) = someMoveExceeds (x0, y0) ps
   \<and> toggled (run s (MouseDown x0 y0 # moves ps @ [MouseUp, Click f]))
       = (if someMoveExceeds (x0, y0) ps then toggled s else toggled s @ [fid f])"
proof -
  note m = session_moves [of s x0 y0 ps]
  have "run s (MouseDown x0 y0 # moves ps @ [MouseUp, Click f])
      = run (run s (MouseDown x0 y0 # moves ps)) [MouseUp, Click f]"
    using run_append [of s "MouseDown x0 y0 # moves ps" "[MouseUp, Click f]"] by simp
  then have "toggled (run s (MouseDown x0 y0 # moves ps @ [MouseUp, Click f]))
       = (if someMoveExceeds (x0, y0) ps then toggled s else toggled s @ [fid f])"
    using m
    by (simp add: run_Cons run_Nil handleMouseUp_def handleCountryClick_def toggleCountry_def)
  with m show ?thesis by simp
qed

lemma drag_flag_per_move_examples:
  "toggled (run initial [MouseDown 0 0, MouseMove 1 0, MouseUp, Click france]) = [''FRA'']
   \<and> toggled (run initial [MouseDown 0 0, MouseMove 3 0, MouseUp, Click france]) = []
   \<and> toggled (run initial [MouseDown 0 0, MouseMove 0 (-3), MouseUp, Click france]) = []
   \<and> isDragRef (run initial [MouseDown 0 0, MouseMove 1 0, MouseMove 2 0, MouseMove 5 0])"
  using drag_flag_per_move [of initial 0 0 "[(1, 0)]" france]
    drag_flag_per_move [of initial 0 0 "[(3, 0)]" france]
    drag_flag_per_move [of initial 0 0 "[(0, -3)]" france]
    drag_flag_per_move [of initial 0 0 "[(1, 0), (2, 0), (5, 0)]" france]
  by (simp add: moves_def initial_def france_def)

text \<open>
  C3. The code breaks the claim on a slow drag. Three moves of one pixel each take the
  pointer 3 pixels from where it went down, more than the threshold: the claim sets the
  drag flag and fires no click. The code compares each move with the position of the
  previous event, which it overwrites on every move, so the flag stays unset, the map is
  panned by 3 units and the click still fires on release. Ten moves of two pixels each, a
  drag of 20 pixels, do the same.
\<close>

theorem slow_drag_fires_click:
  "\<not> isDragRef (run initial [MouseDown 0 0, MouseMove 1 0, MouseMove 2 0, MouseMove 3 0])
   \<and> toggled (run initial
        [MouseDown 0 0, MouseMove 1 0, MouseMove 2 0, MouseMove 3 0, MouseUp, Click france])
      = [''FRA'']
   \<and> tx (transform (run initial
        [MouseDown 0 0, MouseMove 1 0, MouseMove 2 0, MouseMove 3 0, MouseUp, Click france]))
      = Fin 3
   \<and> toggled (run initial
        [MouseDown 0 0, MouseMove 2 0, MouseMove 4 0, MouseMove 6 0, MouseMove 8 0,
         MouseMove 10 0, MouseMove 12 0, MouseMove 14 0, MouseMove 16 0, MouseMove 18 0,
         MouseMove 20 0, MouseUp, Click france])
      = [''FRA'']
   \<and> tx (transform (run initial
        [MouseDown 0 0, MouseMove 2 0, MouseMove 4 0, MouseMove 6 0, MouseMove 8 0,
         MouseMove 10 0, MouseMove 12 0, MouseMove 14 0, MouseMove 16 0, MouseMove 18 0,
         MouseMove 20 0, MouseUp, Click france]))
      = Fin 20"
  by (simp add: run_def initial_def france_def handleMouseDown_def handleMouseMove_def Let_def
      handleMouseUp_def handleCountryClick_def toggleCountry_def)

lemma isDragRef_handleMouseMove:
  "isDragRef s \<Longrightarrow> isDragRef (handleMouseMove x y s)"
  by (simp add: handleMouseMove_def Let_def)

lemma isDragRef_handleTouchMove:
  "isDragRef s \<Longrightarrow> isDragRef (handleTouchMove t0 ts s)"
  using handleTouchMove_cases [of ts s t0]
  by (auto simp: isDragRef_handleMouseMove handleTouchMove_def Let_def)

lemma isDragRef_handleWheel: "isDragRef (handleWheel a b c s) = isDragRef s"
  by (cases "mapRef s") (simp_all add: handleWheel_def Let_def)

lemma toggled_handleMouseMove: "toggled (handleMouseMove x y s) = toggled s"
  by (simp add: handleMouseMove_def Let_def)

lemma toggled_handleTouchMove: "toggled (handleTouchMove t0 ts s) = toggled s"
  using handleTouchMove_cases [of ts s t0]
  by (auto simp: toggled_handleMouseMove handleTouchMove_def Let_def)

lemma toggled_handleWheel: "toggled (handleWheel a b c s) = toggled s"
  by (cases "mapRef s") (simp_all add: handleWheel_def Let_def)

lemma flag_survives_step:
  assumes "isDragRef s" "\<not> isPointerDown e"
  shows "isDragRef (step s e) \<and> toggled (step s e) = toggled s"
proof (cases e)
  case (MouseDown a b)
  with assms(2) show ?thesis by (simp add: isPointerDown_def)
next
  case (TouchStart t0 ts)
  with assms(2) show ?thesis by (simp add: isPointerDown_def)
next
  case (MouseMove a b)
  with assms(1) show ?thesis by (simp add: isDragRef_handleMouseMove toggled_handleMouseMove)
next
  case (TouchMove t0 ts)
  with assms(1) show ?thesis by (simp add: isDragRef_handleTouchMove toggled_handleTouchMove)
next
  case (Wheel a b c)
  with assms(1) show ?thesis by (simp add: isDragRef_handleWheel toggled_handleWheel)
qed (use assms(1) in \<open>simp_all add: handleZoom_def Let_def handleResetZoom_def handleMouseUp_def
      handleTouchEnd_def handleCountryClick_def\<close>)

lemma flag_survives_run:
  "isDragRef s \<Longrightarrow> filter isPointerDown es = [] \<Longrightarrow>
   isDragRef (run s es) \<and> toggled (run s es) = toggled s"
proof (induction es arbitrary: s)
  case Nil
  then show ?case by (simp add: run_Nil)
next
  case (Cons e es)
  from Cons.prems(2) have e: "\<not> isPointerDown e" and es: "filter isPointerDown es = []"
    by (simp_all split: if_splits)
  from flag_survives_step [OF Cons.prems(1) e]
  have 1: "isDragRef (step s e)" and 2: "toggled (step s e) = toggled s" by simp_all
  from Cons.IH [OF 1 es] 2 show ?case by (simp add: run_Cons)
qed

text \<open>
  C6. A click on a feature fires exactly when the drag flag is unset. A release (the mouse
  going up or leaving, a touch ending) keeps the flag as it is; once set, the flag stays
  set through every event that is not a pointer going down, and through any sequence of
  such events, during which no click fires; a pointer going down clears it.
\<close>

theorem click_iff_not_dragged:
  "toggled (step s (Click f)) = (if isDragRef s then toggled s else toggled s @ [fid f])
   \<and> isDragRef (step s MouseUp) = isDragRef s
   \<and> isDragRef (step s MouseLeave) = isDragRef s
   \<and> isDragRef (step s (TouchEnd ts)) = isDragRef s
   \<and> (isDragRef s \<and> \<not> isPointerDown e \<longrightarrow> isDragRef (step s e))
   \<and> (isDragRef s \<and> filter isPointerDown es = [] \<longrightarrow>
        isDragRef (run s es) \<and> toggled (run s es) = toggled s)
   \<and> \<not> isDragRef (step s (MouseDown x y))
   \<and> \<not> isDragRef (step s (TouchStart t0 touches))"
proof (intro conjI impI)
  show "toggled (step s (Click f)) = (if isDragRef s then toggled s else toggled s @ [fid f])"
    by (simp add: handleCountryClick_def toggleCountry_def)
  show "isDragRef (step s MouseUp) = isDragRef s" by (simp add: handleMouseUp_def)
  show "isDragRef (step s MouseLeave) = isDragRef s" by (simp add: handleMouseUp_def)
  show "isDragRef (step s (TouchEnd ts)) = isDragRef s"
    by (simp add: handleTouchEnd_def handleMouseUp_def Let_def)
  show "isDragRef (step s e)" if "isDragRef s \<and> \<not> isPointerDown e"
    using that flag_survives_step [of s e] by simp
  show "isDragRef (run s es)" if "isDragRef s \<and> filter isPointerDown es = []"
    using that flag_survives_run [of s es] by simp
  show "toggled (run s es) = toggled s" if "isDragRef s \<and> filter isPointerDown es = []"
    using that flag_survives_run [of s es] by simp
  show "\<not> isDragRef (step s (MouseDown x y))" by (simp add: handleMouseDown_def)
  show "\<not> isDragRef (step s (TouchStart t0 touches))"
    by (simp add: handleTouchStart_def handleMouseDown_def split: list.splits)
qed

lemma dragged_flag: "isDragRef dragged \<and> toggled dragged = []"
  by (simp add: dragged_def run_def initial_def handleMouseDown_def handleMouseMove_def Let_def)

theorem click_iff_not_dragged_witness:
  "isDragRef dragged \<and> \<not> isPointerDown MouseUp
   \<and> filter isPointerDown [MouseUp, Click france, MouseMove 6 0, Click france] = []
   \<and> isDragRef (step dragged MouseUp)
   \<and> toggled (step dragged (Click france)) = []
   \<and> toggled (step initial (Click france)) = [''FRA'']
   \<and> toggled (run dragged [MouseUp, Click france, MouseMove 6 0, Click france]) = []
   \<and> \<not> isDragRef (step dragged (MouseDown 7 0))"
proof -
  have p: "\<not> isPointerDown MouseUp"
    "filter isPointerDown [MouseUp, Click france, MouseMove 6 0, Click france] = []"
    by (simp_all add: isPointerDown_def)
  note t = click_iff_not_dragged [where s = dragged and f = france and e = MouseUp
      and es = "[MouseUp, Click france, MouseMove 6 0, Click france]" and x = 7 and y = 0]
  note i = click_iff_not_dragged [where s = initial and f = france, THEN conjunct1]
  have "toggled (step initial (Click france)) = [''FRA'']"
    using i by (simp add: initial_def france_def)
  with t p dragged_flag show ?thesis by simp
qed


lemma finiteViewport_Fin [simp]: "finiteViewport \<lparr>tk = Fin a, tx = Fin b, ty = Fin c\<rparr>"
  by (simp add: finiteViewport_def isFinite_def)








end
